theory Spec2Isabelle
  imports Main "HOL-Library.Sublist"
begin

section \<open>JavaScript values used by lib/main.js\<close>

text \<open>
  The package's main class \<open>Flint\<close> keeps one compiler connection per project root and
  binds open documents to connections. The development below embeds \<open>lib/main.js\<close>:
  the synchronous bodies of its methods and callbacks become functions on an explicit
  state, and the host's event loop becomes a list of events, each of which runs one
  callback to completion (JavaScript never interleaves two callbacks).
\<close>

type_synonym path = string

text \<open>Values thrown, or carried by a rejected promise.\<close>

datatype js_error = TypeError | HostError string

text \<open>The result of a promise that has settled.\<close>

datatype 'a settled = Fulfilled 'a | Rejected js_error

text \<open>
  \<open>String.prototype.indexOf\<close>: the index of the first occurrence of the needle, or \<open>-1\<close>.
\<close>

fun indexOf :: "string \<Rightarrow> string \<Rightarrow> int" where
  "indexOf [] needle = (if needle = [] then 0 else - 1)"
| "indexOf (c # cs) needle =
     (if prefix needle (c # cs) then 0
      else (let r = indexOf cs needle in if r < 0 then - 1 else r + 1))"

text \<open>\<open>Array.prototype.indexOf\<close> on an array of strings (strict equality).\<close>

fun array_indexOf :: "'a list \<Rightarrow> 'a \<Rightarrow> int" where
  "array_indexOf [] x = - 1"
| "array_indexOf (y # ys) x =
     (if y = x then 0
      else (let r = array_indexOf ys x in if r < 0 then - 1 else r + 1))"

subsection \<open>The built-in Map\<close>

text \<open>
  A JavaScript \<open>Map\<close> iterates in insertion order, and \<open>set\<close> on a key that is present
  replaces the value where it stands. It is an association list with distinct keys.
\<close>

definition map_has :: "'k \<Rightarrow> ('k \<times> 'v) list \<Rightarrow> bool" where
  "map_has k m = (map_of m k \<noteq> None)"

definition map_get :: "'k \<Rightarrow> ('k \<times> 'v) list \<Rightarrow> 'v option" where
  "map_get k m = map_of m k"

primrec map_set :: "'k \<Rightarrow> 'v \<Rightarrow> ('k \<times> 'v) list \<Rightarrow> ('k \<times> 'v) list" where
  "map_set k v [] = [(k, v)]"
| "map_set k v (e # m) = (if fst e = k then (k, v) # m else e # map_set k v m)"

definition map_delete :: "'k \<Rightarrow> ('k \<times> 'v) list \<Rightarrow> ('k \<times> 'v) list" where
  "map_delete k m = filter (\<lambda>e. fst e \<noteq> k) m"

definition map_keys :: "('k \<times> 'v) list \<Rightarrow> 'k list" where
  "map_keys m = map fst m"

definition map_values :: "('k \<times> 'v) list \<Rightarrow> 'v list" where
  "map_values m = map snd m"

section \<open>The objects of the package\<close>

text \<open>
  A \<open>Connection\<close> object: \<open>cid\<close> is its identity, \<open>getPath\<close> and \<open>getBaseDir\<close> are what
  the methods of these names return.
\<close>

record connection =
  cid :: nat
  getPath :: path
  getBaseDir :: path

text \<open>
  Atom's text editor: \<open>te_path\<close> is what \<open>textEditor.getPath()\<close> returns, which is
  \<open>undefined\<close> (\<open>None\<close>) for a document that was never saved.
\<close>

record textEditor =
  te_id :: nat
  te_path :: "path option"

text \<open>The wrapper \<open>new Editor(textEditor, connection)\<close>.\<close>

record editor =
  ed_textEditor :: textEditor
  ed_connection :: connection

text \<open>The messages a connection delivers.\<close>

record location =
  line :: int
  column :: int

record compile_error =
  message :: string
  stack :: string
  fileName :: string
  loc :: "location option"

datatype message =
    CompileError compile_error
  | FileMeta string string
  | CompileSuccess string

text \<open>The object literal handed to \<open>linter.setError\<close>.\<close>

record diagnostic =
  diag_type :: string
  diag_text :: string
  filePath :: string
  diag_range :: "(int \<times> int) \<times> (int \<times> int)"

text \<open>
  The calls that leave \<open>lib/main.js\<close>, in the order they are made; \<open>HandlePaths\<close> and
  \<open>DidAddProject\<close> mark the start of a \<open>handlePaths\<close> call and each event it emits.
\<close>

datatype effect =
    HandlePaths nat "path list"
  | DidAddProject nat path
  | CreationSettled nat path
  | ConnectionsSet path nat
  | ConnectionsDelete path nat
  | RegisterConnection nat
  | UnregisterConnection nat
  | ConnectionDestroy nat
  | SetError nat string "diagnostic option"
  | ShowError string string
  | UpdateMeta nat string
  | ConsoleError string js_error
  | Uncaught js_error

text \<open>The members of \<open>this.subscriptions\<close>.\<close>

datatype disposable =
    DEmitter | DCommands | DLinter | DStatusIcon | DAutocomplete | DPathsListener
  | DActivePaneListener | DEditor editor

text \<open>
  One call of \<open>handlePaths\<close>: how many promises its \<open>promises\<close> array holds and the
  results of those that have settled, in the order they settled.
\<close>

record batch =
  spawned :: nat
  results :: "unit settled list"

text \<open>
  The state: the fields of the \<open>Flint\<close> object (\<open>subscriptions\<close>, \<open>connections\<close>,
  \<open>editors\<close>, and \<open>config\<close>, which the constructor leaves undefined), what its
  collaborators hold (\<open>linter_connections\<close>: the connections registered with the
  linter; \<open>created\<close>: every connection object made so far; \<open>destroyed\<close>: the
  identities of those whose \<open>destroy()\<close> has run), and the asynchronous work in flight
  (\<open>pending\<close>: the creation promises not yet settled, each with the number of the
  \<open>handlePaths\<close> call that spawned it; \<open>batches\<close>: one entry per call;
  \<open>observing\<close>: whether the callback of \<open>observeTextEditors\<close> is installed).
\<close>

record flint =
  subscriptions :: "disposable list"
  subscriptions_disposed :: bool
  connections :: "(path \<times> connection) list"
  editors :: "(textEditor \<times> editor) list"
  config :: "unit option"
  linter_connections :: "nat list"
  created :: "connection list"
  destroyed :: "nat list"
  pending :: "(nat \<times> path) list"
  batches :: "batch list"
  observing :: bool
  effects :: "effect list"

text \<open>
  What \<open>lib/main.js\<close> imports and this development takes as given: \<open>realPath\<close> and
  \<open>fileExists\<close> of \<open>./helpers\<close> (a rejection of \<open>realPath\<close> is \<open>Inl\<close>), \<open>join\<close> of
  Node's \<open>path\<close>, \<open>getMessage\<close> of \<open>./helpers\<close>, and the transport behind
  \<open>Connection.create\<close>: whether it can be established for a root and configuration
  file, and the base directory of the connection if so.
\<close>

record env =
  realPath :: "path \<Rightarrow> js_error + path"
  fileExists :: "path \<Rightarrow> bool"
  joinPath :: "path list \<Rightarrow> path"
  transport :: "path \<Rightarrow> path \<Rightarrow> js_error + path"
  getMessage :: "compile_error \<Rightarrow> string"

definition log :: "effect list \<Rightarrow> flint \<Rightarrow> flint" where
  "log es s = s\<lparr>effects := effects s @ es\<rparr>"

section \<open>The class Flint\<close>

subsection \<open>constructor\<close>

definition constructor :: flint where
  "constructor =
     \<lparr>subscriptions = [DEmitter, DCommands, DLinter, DStatusIcon, DAutocomplete],
      subscriptions_disposed = False,
      connections = [],
      editors = [],
      config = None,
      linter_connections = [],
      created = [],
      destroyed = [],
      pending = [],
      batches = [],
      observing = False,
      effects = []\<rparr>"

text \<open>\<open>CompositeDisposable.add\<close> and \<open>remove\<close>: a disposed composite ignores both.\<close>

definition subscriptions_add :: "disposable \<Rightarrow> flint \<Rightarrow> flint" where
  "subscriptions_add d s =
     (if subscriptions_disposed s then s else s\<lparr>subscriptions := subscriptions s @ [d]\<rparr>)"

definition subscriptions_remove :: "disposable \<Rightarrow> flint \<Rightarrow> flint" where
  "subscriptions_remove d s =
     (if subscriptions_disposed s then s else s\<lparr>subscriptions := remove1 d (subscriptions s)\<rparr>)"

subsection \<open>handleConnection and the handlers it installs\<close>

text \<open>The callback of \<open>connection.onDidDestroy\<close> (line 83).\<close>

definition connection_onDidDestroy :: "connection \<Rightarrow> flint \<Rightarrow> flint" where
  "connection_onDidDestroy connection s =
     log [UnregisterConnection (cid connection)]
       (s\<lparr>linter_connections := removeAll (cid connection) (linter_connections s)\<rparr>)"

text \<open>\<open>getEditorByPath\<close> (line 117): the first wrapper whose document has this path.\<close>

fun getEditorByPath :: "path \<Rightarrow> (textEditor \<times> editor) list \<Rightarrow> editor option" where
  "getEditorByPath p [] = None"
| "getEditorByPath p ((textEditor, editor) # rest) =
     (if te_path textEditor = Some p then Some editor else getEditorByPath p rest)"

text \<open>
  The handler of \<open>compile:error\<close> (line 86). Line and column numbers are integers; the
  numbers of JavaScript agree with them below \<open>2^53\<close>.
\<close>

definition on_compile_error :: "env \<Rightarrow> connection \<Rightarrow> compile_error \<Rightarrow> flint \<Rightarrow> flint" where
  "on_compile_error E connection error s =
     (case loc error of
        None \<Rightarrow> log [ShowError (''[Compiler-Error] '' @ message error) (stack error)] s
      | Some l \<Rightarrow>
          log [SetError (cid connection) (fileName error)
                 (Some \<lparr>diag_type = ''Error'',
                        diag_text = getMessage E error,
                        filePath = fileName error,
                        diag_range = ((line l - 1, column l - 1), (line l - 1, column l))\<rparr>)] s)"

text \<open>The handler of \<open>file:meta\<close> (line 100).\<close>

definition on_file_meta :: "env \<Rightarrow> connection \<Rightarrow> string \<Rightarrow> string \<Rightarrow> flint \<Rightarrow> flint" where
  "on_file_meta E connection file views s =
     (case getEditorByPath (joinPath E [getBaseDir connection, file]) (editors s) of
        None \<Rightarrow> s
      | Some textEditor \<Rightarrow> log [UpdateMeta (te_id (ed_textEditor textEditor)) views] s)"

text \<open>The handler of \<open>compile:success\<close> (line 107).\<close>

definition on_compile_success :: "connection \<Rightarrow> string \<Rightarrow> flint \<Rightarrow> flint" where
  "on_compile_success connection p s = log [SetError (cid connection) p None] s"

fun onMessage :: "env \<Rightarrow> connection \<Rightarrow> message \<Rightarrow> flint \<Rightarrow> flint" where
  "onMessage E connection (CompileError error) s = on_compile_error E connection error s"
| "onMessage E connection (FileMeta file views) s = on_file_meta E connection file views s"
| "onMessage E connection (CompileSuccess p) s = on_compile_success connection p s"

text \<open>
  \<open>handleConnection\<close> (line 80) stores the connection and registers it with the linter;
  the four handlers it installs are the functions above, run when the connection fires.
\<close>

definition handleConnection :: "path \<Rightarrow> connection \<Rightarrow> flint \<Rightarrow> flint" where
  "handleConnection p connection s =
     log [ConnectionsSet p (cid connection), RegisterConnection (cid connection)]
       (s\<lparr>connections := map_set p connection (connections s),
          linter_connections := linter_connections s @ [cid connection]\<rparr>)"

subsection \<open>The connection\<close>

text \<open>
  Modelled from the spec: \<open>lib/connection.js\<close> is missing from the sources.
  \<open>Connection.create(rootPath, configPath)\<close> resolves to a connection bound to
  \<open>rootPath\<close> (its \<open>getPath()\<close>) or rejects when the transport cannot be established.
\<close>

definition Connection_create :: "env \<Rightarrow> nat \<Rightarrow> path \<Rightarrow> path \<Rightarrow> js_error + connection" where
  "Connection_create E i rootPath configPath =
     (case transport E rootPath configPath of
        Inl e \<Rightarrow> Inl e
      | Inr baseDir \<Rightarrow> Inr \<lparr>cid = i, getPath = rootPath, getBaseDir = baseDir\<rparr>)"

text \<open>
  Modelled from the spec: \<open>lib/connection.js\<close> is missing from the sources.
  \<open>destroy()\<close> tears the connection down synchronously: it marks the connection as
  destroyed and runs the handlers of \<open>onDidDestroy\<close>.
\<close>

definition Connection_destroy :: "connection \<Rightarrow> flint \<Rightarrow> flint" where
  "Connection_destroy connection s =
     connection_onDidDestroy connection
       (log [ConnectionDestroy (cid connection)]
          (s\<lparr>destroyed := cid connection # destroyed s\<rparr>))"

text \<open>
  Modelled from the spec: \<open>lib/connection.js\<close> is missing from the sources.
  A connection that receives a message from its compiler process hands it to the
  handlers subscribed with \<open>onMessage\<close>. The interface of the connection promises no
  silence after \<open>destroy()\<close>, and \<open>handleConnection\<close> drops the disposables that
  \<open>onMessage\<close> returns, so the three handlers stay subscribed for as long as the
  connection delivers, destroyed or not.
\<close>

definition Connection_dispatch :: "env \<Rightarrow> nat \<Rightarrow> message \<Rightarrow> flint \<Rightarrow> flint" where
  "Connection_dispatch E i m s =
     (case find (\<lambda>c. cid c = i) (created s) of
        None \<Rightarrow> s
      | Some connection \<Rightarrow> onMessage E connection m s)"

subsection \<open>getConnectionByPath\<close>

text \<open>
  \<open>getConnectionByPath\<close> (line 125) walks \<open>this.connections.values()\<close>. With an
  undefined path, \<open>path.indexOf\<close> throws as soon as the loop body runs.
\<close>

fun getConnectionByPath_loop :: "path option \<Rightarrow> connection list \<Rightarrow> js_error + connection option" where
  "getConnectionByPath_loop p [] = Inr None"
| "getConnectionByPath_loop None (connection # rest) = Inl TypeError"
| "getConnectionByPath_loop (Some p) (connection # rest) =
     (if indexOf p (getPath connection) = 0 then Inr (Some connection)
      else getConnectionByPath_loop (Some p) rest)"

definition getConnectionByPath :: "path option \<Rightarrow> flint \<Rightarrow> js_error + connection option" where
  "getConnectionByPath p s = getConnectionByPath_loop p (map_values (connections s))"

subsection \<open>The callbacks of activate\<close>

text \<open>
  The listener of \<open>did-add-project\<close> (line 37) pushes one promise. Nothing in its chain
  reads or writes the state before \<open>handleConnection\<close>, so the chain is run as a whole
  when the promise settles: \<open>creation\<close> returns how the promise settles and the state
  after it. The rejection handler (line 44) covers \<open>Connection.create\<close> only; a
  rejection of \<open>realPath\<close> rejects the pushed promise.
\<close>

definition marker_file :: "env \<Rightarrow> path \<Rightarrow> path" where
  "marker_file E rp = joinPath E [rp, ''.flint'', ''.internal'', ''state.json'']"

definition creation :: "env \<Rightarrow> path \<Rightarrow> flint \<Rightarrow> unit settled \<times> flint" where
  "creation E p s =
     (case realPath E p of
        Inl e \<Rightarrow> (Rejected e, s)
      | Inr rp \<Rightarrow>
          (let configPath = marker_file E rp in
           if fileExists E configPath then
             (case Connection_create E (length (created s)) rp configPath of
                Inr connection \<Rightarrow>
                  (Fulfilled (),
                   handleConnection rp connection (s\<lparr>created := created s @ [connection]\<rparr>))
              | Inl e \<Rightarrow> (Fulfilled (), log [ConsoleError ''Flint channel creation failed'' e] s))
           else (Fulfilled (), s)))"

text \<open>The callback of \<open>observeTextEditors\<close> (line 59) and that of \<open>editor.onDidDestroy\<close>.\<close>

definition editor_onDidDestroy :: "textEditor \<Rightarrow> editor \<Rightarrow> flint \<Rightarrow> flint" where
  "editor_onDidDestroy textEditor editor s =
     (let s1 = subscriptions_remove (DEditor editor) s
      in s1\<lparr>editors := map_delete textEditor (editors s1)\<rparr>)"

definition observeTextEditor :: "textEditor \<Rightarrow> flint \<Rightarrow> flint" where
  "observeTextEditor textEditor s =
     (case getConnectionByPath (te_path textEditor) s of
        Inl e \<Rightarrow> log [Uncaught e] s
      | Inr None \<Rightarrow> s
      | Inr (Some connection) \<Rightarrow>
          (let editor = \<lparr>ed_textEditor = textEditor, ed_connection = connection\<rparr>;
               s1 = subscriptions_add (DEditor editor) s
           in s1\<lparr>editors := map_set textEditor editor (editors s1)\<rparr>))"

subsection \<open>handlePaths\<close>

text \<open>
  The first loop of \<open>handlePaths\<close> (line 137); \<open>b\<close> numbers the call. Emitting
  \<open>did-add-project\<close> runs the listener of line 37, which starts the asynchronous chain
  and pushes its promise.
\<close>

definition emit_did_add_project :: "nat \<Rightarrow> path \<Rightarrow> flint \<Rightarrow> flint" where
  "emit_did_add_project b p s = log [DidAddProject b p] (s\<lparr>pending := pending s @ [(b, p)]\<rparr>)"

fun add_new :: "nat \<Rightarrow> path list \<Rightarrow> flint \<Rightarrow> flint" where
  "add_new b [] s = s"
| "add_new b (newPath # paths) s =
     add_new b paths
       (if \<not> map_has newPath (connections s) then emit_did_add_project b newPath s else s)"

text \<open>
  The second loop (line 144), over the keys of \<open>this.connections\<close>. Deleting the entry
  under the iterator leaves the rest of the iteration as it is, so the loop runs over
  the keys present when it starts. \<open>get\<close> of such a key is never undefined
  (\<open>remove_deleted_get_defined\<close> below), so the branch that stands for calling
  \<open>destroy\<close> of undefined is never taken.
\<close>

fun remove_deleted :: "path list \<Rightarrow> path list \<Rightarrow> flint \<Rightarrow> flint" where
  "remove_deleted paths [] s = s"
| "remove_deleted paths (oldPath # keys) s =
     remove_deleted paths keys
       (if array_indexOf paths oldPath = - 1 then
          (case map_get oldPath (connections s) of
             None \<Rightarrow> log [Uncaught TypeError] s
           | Some oldConnection \<Rightarrow>
               (let s1 = Connection_destroy oldConnection s
                in log [ConnectionsDelete oldPath (cid oldConnection)]
                     (s1\<lparr>connections := map_delete oldPath (connections s1)\<rparr>)))
        else s)"

text \<open>
  \<open>Promise.all\<close> over the promises of one call: rejected as soon as one of them is,
  fulfilled when all are, pending (\<open>None\<close>) otherwise.
\<close>

fun first_rejection :: "'a settled list \<Rightarrow> js_error option" where
  "first_rejection [] = None"
| "first_rejection (Rejected e # rs) = Some e"
| "first_rejection (Fulfilled v # rs) = first_rejection rs"

definition Promise_all :: "batch \<Rightarrow> unit settled option" where
  "Promise_all b =
     (case first_rejection (results b) of
        Some e \<Rightarrow> Some (Rejected e)
      | None \<Rightarrow> if length (results b) = spawned b then Some (Fulfilled ()) else None)"

text \<open>\<open>promise.catch(e => console.error(e))\<close>: the handler returns undefined.\<close>

definition promise_catch :: "unit settled option \<Rightarrow> unit settled option" where
  "promise_catch p =
     (case p of
        None \<Rightarrow> None
      | Some (Fulfilled v) \<Rightarrow> Some (Fulfilled v)
      | Some (Rejected e) \<Rightarrow> Some (Fulfilled ()))"

text \<open>The promise that \<open>handlePaths\<close> returns (line 152).\<close>

definition handlePaths_promise :: "batch \<Rightarrow> unit settled option" where
  "handlePaths_promise b = promise_catch (Promise_all b)"

definition handlePaths :: "path list \<Rightarrow> flint \<Rightarrow> flint" where
  "handlePaths paths s =
     (let b = length (batches s);
          s1 = add_new b paths (log [HandlePaths b paths] s);
          s2 = remove_deleted paths (map_keys (connections s1)) s1
      in s2\<lparr>batches := batches s2 @
               [\<lparr>spawned = length (filter (\<lambda>t. fst t = b) (pending s2)), results = []\<rparr>]\<rparr>)"

subsection \<open>Settling a creation promise\<close>

text \<open>
  The \<open>i\<close>-th creation promise in flight settles: its chain runs, the result is recorded
  with the call that spawned it, and the reactions on that call's promise run. If this
  is the first rejection of the call, \<open>Promise.all\<close> rejects and the handler of
  \<open>catch\<close> (line 152) logs the reason. If the call is the one \<open>activate\<close> made and its
  promise has now settled, the continuation of line 57 installs the editor observers.
\<close>

definition install_observers :: "flint \<Rightarrow> flint" where
  "install_observers s =
     (if observing s then s
      else (case batches s of
              [] \<Rightarrow> s
            | b # bs \<Rightarrow>
                if handlePaths_promise b \<noteq> None
                then subscriptions_add DActivePaneListener (s\<lparr>observing := True\<rparr>)
                else s))"

definition record_result :: "nat \<Rightarrow> unit settled \<Rightarrow> flint \<Rightarrow> flint" where
  "record_result b r s =
     (if b < length (batches s) then
        (let old = batches s ! b;
             s1 = s\<lparr>batches := (batches s)[b := old\<lparr>results := results old @ [r]\<rparr>]\<rparr>
         in (case r of
               Fulfilled v \<Rightarrow> s1
             | Rejected e \<Rightarrow>
                 if first_rejection (results old) = None then log [ConsoleError [] e] s1 else s1))
      else s)"

definition settle :: "env \<Rightarrow> nat \<Rightarrow> flint \<Rightarrow> flint" where
  "settle E i s =
     (if i < length (pending s) then
        (let b = fst (pending s ! i);
             p = snd (pending s ! i);
             s0 = s\<lparr>pending := take i (pending s) @ drop (Suc i) (pending s)\<rparr>;
             r = fst (creation E p s0);
             s1 = log [CreationSettled b p] (snd (creation E p s0))
         in install_observers (record_result b r s1))
      else s)"

subsection \<open>activate and the event loop\<close>

text \<open>
  \<open>activate\<close> (line 34) installs the listener of \<open>did-add-project\<close>, subscribes to the
  project's path changes and calls \<open>handlePaths\<close> on the current paths
  (\<open>atom.project.getPaths()\<close>, the argument here). The status icon and the commands
  play no part in what follows and are left out.
\<close>

definition activate :: "path list \<Rightarrow> flint \<Rightarrow> flint" where
  "activate paths s = install_observers (handlePaths paths (subscriptions_add DPathsListener s))"

text \<open>
  What the host can make happen after \<open>activate\<close>, one callback at a time:
  the project's paths change; a creation promise in flight settles; a text editor is
  handed to the callback of \<open>observeTextEditors\<close>; the wrapper of a text editor is
  destroyed; a connection delivers a message.

  The listener of line 54 calls \<open>pathsQueue.then(() => this.handlePaths(paths))\<close>.
  \<open>pathsQueue\<close> is bound once, to \<open>Promise.resolve()\<close>, and never assigned again, so
  the reaction is queued on a promise that is already fulfilled and runs at the end of
  the very turn that queued it: \<open>DidChangePaths\<close> runs \<open>handlePaths\<close> whatever is in
  flight.
\<close>

datatype event =
    DidChangePaths "path list"
  | Settle nat
  | ObserveTextEditor textEditor
  | DestroyEditor textEditor
  | Message nat message

fun step :: "env \<Rightarrow> event \<Rightarrow> flint \<Rightarrow> flint" where
  "step E (DidChangePaths paths) s = handlePaths paths s"
| "step E (Settle i) s = settle E i s"
| "step E (ObserveTextEditor textEditor) s =
     (if observing s then observeTextEditor textEditor s else s)"
| "step E (DestroyEditor textEditor) s =
     (case map_get textEditor (editors s) of
        None \<Rightarrow> s
      | Some editor \<Rightarrow> editor_onDidDestroy textEditor editor s)"
| "step E (Message i m) s = Connection_dispatch E i m s"

definition run :: "env \<Rightarrow> path list \<Rightarrow> event list \<Rightarrow> flint" where
  "run E paths evs = foldl (\<lambda>s e. step E e s) (activate paths constructor) evs"

subsection \<open>dispose\<close>

text \<open>
  \<open>dispose\<close> (line 157) starts with \<open>this.config.clear()\<close>; reading \<open>clear\<close> of an
  undefined \<open>config\<close> throws before the next two statements run.
\<close>

definition dispose :: "flint \<Rightarrow> js_error + flint" where
  "dispose s =
     (case config s of
        None \<Rightarrow> Inl TypeError
      | Some c \<Rightarrow> Inr (s\<lparr>editors := [], subscriptions := [], subscriptions_disposed := True\<rparr>))"

section \<open>A small world to run the code in\<close>

text \<open>
  Segments joined with a slash, as \<open>path.join\<close> does for segments that need no
  normalising; a file system where \<open>/link\<close> is a symbolic link to \<open>/real\<close> and
  \<open>/gone\<close> does not exist; marker files under \<open>/real\<close>, \<open>/root\<close>, \<open>/root/src\<close>
  and \<open>/broken\<close>; and a transport that cannot be established for \<open>/broken\<close>.
\<close>

definition slash_join :: "path list \<Rightarrow> path" where
  "slash_join ps = (case ps of [] \<Rightarrow> ''.'' | p # rest \<Rightarrow> foldl (\<lambda>a x. a @ ''/'' @ x) p rest)"

definition example_env :: env where
  "example_env =
     \<lparr>realPath = (\<lambda>p. if p = ''/gone'' then Inl (HostError ''ENOENT'')
                      else if p = ''/link'' then Inr ''/real'' else Inr p),
      fileExists = (\<lambda>p. p \<in> set [''/real/.flint/.internal/state.json'',
                                   ''/root/.flint/.internal/state.json'',
                                   ''/root/src/.flint/.internal/state.json'',
                                   ''/broken/.flint/.internal/state.json'']),
      joinPath = slash_join,
      transport = (\<lambda>rootPath configPath.
                     if rootPath = ''/broken'' then Inl (HostError ''ECONNREFUSED'')
                     else Inr rootPath),
      getMessage = message\<rparr>"

section \<open>Notions used in the statements\<close>

text \<open>
  The root under which a connection for the project path \<open>p\<close> comes to be registered:
  the real path of \<open>p\<close>, if it resolves, holds the marker file and the transport can be
  established for it.
\<close>

definition established :: "env \<Rightarrow> path \<Rightarrow> path option" where
  "established E p =
     (case realPath E p of
        Inl e \<Rightarrow> None
      | Inr rp \<Rightarrow>
          if fileExists E (marker_file E rp) then
            (case transport E rp (marker_file E rp) of Inl e \<Rightarrow> None | Inr baseDir \<Rightarrow> Some rp)
          else None)"

definition established_roots :: "env \<Rightarrow> path list \<Rightarrow> path set" where
  "established_roots E paths = {rp. \<exists>p \<in> set paths. established E p = Some rp}"

text \<open>The argument of the most recent call of \<open>handlePaths\<close>.\<close>

fun last_paths :: "path list \<Rightarrow> event list \<Rightarrow> path list" where
  "last_paths paths [] = paths"
| "last_paths paths (DidChangePaths ps # evs) = last_paths ps evs"
| "last_paths paths (e # evs) = last_paths paths evs"

text \<open>Every call of \<open>handlePaths\<close> in the run finds no creation promise in flight.\<close>

fun calls_settled :: "env \<Rightarrow> flint \<Rightarrow> event list \<Rightarrow> bool" where
  "calls_settled E s [] = True"
| "calls_settled E s (DidChangePaths ps # evs) =
     (pending s = [] \<and> calls_settled E (handlePaths ps s) evs)"
| "calls_settled E s (e # evs) = calls_settled E (step E e s) evs"

text \<open>
  The invariant behind the convergence of the key set: between a call with paths \<open>P\<close>
  and the settling of its last promise, every key is an established root of \<open>P\<close>, every
  established root of \<open>P\<close> is a key or still has its creation in flight, and every
  creation in flight is for a path of \<open>P\<close>.
\<close>

definition keys_inv :: "env \<Rightarrow> path list \<Rightarrow> flint \<Rightarrow> bool" where
  "keys_inv E P s \<longleftrightarrow>
     set (map_keys (connections s)) \<subseteq> established_roots E P \<and>
     (\<forall>t \<in> established_roots E P.
        t \<in> set (map_keys (connections s)) \<or>
        (\<exists>q \<in> snd ` set (pending s). established E q = Some t)) \<and>
     snd ` set (pending s) \<subseteq> set P"






section \<open>Facts about the built-in operations\<close>

lemma indexOf_zero_iff: "indexOf p q = 0 \<longleftrightarrow> prefix q p"
  by (cases p) (auto simp: Let_def)

lemma array_indexOf_ge: "- 1 \<le> array_indexOf xs x"
  by (induction xs) (auto simp: Let_def)

lemma array_indexOf_absent: "array_indexOf xs x = - 1 \<longleftrightarrow> x \<notin> set xs"
proof (induction xs)
  case Nil
  show ?case by simp
next
  case (Cons y ys)
  have "- 1 \<le> array_indexOf ys x" by (rule array_indexOf_ge)
  with Cons show ?case by (auto simp: Let_def)
qed

lemma map_get_map_set: "map_get k (map_set k v m) = Some v"
  by (induction m) (auto simp: map_get_def)

lemma map_get_map_delete: "map_get k (map_delete k m) = None"
  by (induction m) (auto simp: map_get_def map_delete_def)

lemma getConnectionByPath_loop_find:
  "getConnectionByPath_loop (Some p) cs = Inr (find (\<lambda>c. prefix (getPath c) p) cs)"
  by (induction cs) (simp_all add: indexOf_zero_iff)

section \<open>Routing of compile errors\<close>

text \<open>
  C5. A \<open>compile:error\<close> message whose descriptor has a \<open>loc\<close> makes the handler call
  \<open>linter.setError\<close> once, for the connection and the descriptor's file, with a
  diagnostic of type \<open>Error\<close>, the text of \<open>getMessage\<close>, the descriptor's file path and
  the range \<open>[[line - 1, column - 1], [line - 1, column]]\<close>; nothing else changes.
\<close>

theorem compile_error_with_loc:
  "loc error = Some l \<Longrightarrow>
   onMessage E connection (CompileError error) s =
     s\<lparr>effects := effects s @
        [SetError (cid connection) (fileName error)
           (Some \<lparr>diag_type = ''Error'', diag_text = getMessage E error,
                  filePath = fileName error,
                  diag_range = ((line l - 1, column l - 1), (line l - 1, column l))\<rparr>)]\<rparr>"
  by (simp add: on_compile_error_def log_def)

text \<open>The instance of the specification: line 5, column 3 of \<open>a.js\<close> gives \<open>[[4,2],[4,3]]\<close>.\<close>

theorem compile_error_with_loc_witness:
  "loc \<lparr>message = ''Unexpected token'', stack = ''at parse'', fileName = ''a.js'',
        loc = Some \<lparr>line = 5, column = 3\<rparr>\<rparr> = Some \<lparr>line = 5, column = 3\<rparr> \<and>
   onMessage example_env \<lparr>cid = 0, getPath = ''/root'', getBaseDir = ''/root''\<rparr>
     (CompileError \<lparr>message = ''Unexpected token'', stack = ''at parse'', fileName = ''a.js'',
                     loc = Some \<lparr>line = 5, column = 3\<rparr>\<rparr>) constructor =
     constructor\<lparr>effects :=
        [SetError 0 ''a.js''
           (Some \<lparr>diag_type = ''Error'', diag_text = ''Unexpected token'',
                  filePath = ''a.js'', diag_range = ((4, 2), (4, 3))\<rparr>)]\<rparr>"
  using compile_error_with_loc
    [of "\<lparr>message = ''Unexpected token'', stack = ''at parse'', fileName = ''a.js'',
          loc = Some \<lparr>line = 5, column = 3\<rparr>\<rparr>" "\<lparr>line = 5, column = 3\<rparr>" example_env
        "\<lparr>cid = 0, getPath = ''/root'', getBaseDir = ''/root''\<rparr>" constructor]
  by (simp add: example_env_def constructor_def)

text \<open>
  C6. A \<open>compile:error\<close> message whose descriptor has no \<open>loc\<close> makes the handler call
  \<open>showError\<close> once, with the prefixed message and the stack, and nothing else: no
  call of \<open>linter.setError\<close> is made and the state is otherwise as before.
\<close>

theorem compile_error_without_loc:
  "loc error = None \<Longrightarrow>
   onMessage E connection (CompileError error) s =
     s\<lparr>effects := effects s @
        [ShowError (''[Compiler-Error] '' @ message error) (stack error)]\<rparr>"
  by (simp add: on_compile_error_def log_def)

theorem compile_error_without_loc_witness:
  "loc \<lparr>message = ''out of memory'', stack = ''at emit'', fileName = ''a.js'',
        loc = None\<rparr> = None \<and>
   onMessage example_env \<lparr>cid = 0, getPath = ''/root'', getBaseDir = ''/root''\<rparr>
     (CompileError \<lparr>message = ''out of memory'', stack = ''at emit'', fileName = ''a.js'',
                     loc = None\<rparr>) constructor =
     constructor\<lparr>effects := [ShowError ''[Compiler-Error] out of memory'' ''at emit'']\<rparr>"
  using compile_error_without_loc
    [of "\<lparr>message = ''out of memory'', stack = ''at emit'', fileName = ''a.js'',
          loc = None\<rparr>" example_env
        "\<lparr>cid = 0, getPath = ''/root'', getBaseDir = ''/root''\<rparr>" constructor]
  by (simp add: constructor_def)

section \<open>Looking a connection up by path\<close>

text \<open>
  C9. \<open>getConnectionByPath\<close> returns the first connection, in the insertion order of
  the map, whose \<open>getPath()\<close> is a prefix of the document path as a string of
  characters, and a document handed to the observer is bound to that connection; no
  boundary of a path segment is asked for, so \<open>/rootother/x.js\<close> matches a connection
  rooted at \<open>/root\<close>.
\<close>

theorem getConnectionByPath_first_prefix:
  "getConnectionByPath (Some p) s =
     Inr (find (\<lambda>c. prefix (getPath c) p) (map_values (connections s))) \<and>
   (te_path te = Some p \<longrightarrow>
    find (\<lambda>c. prefix (getPath c) p) (map_values (connections s)) = Some c \<longrightarrow>
      map_get te (editors (observeTextEditor te s)) =
        Some \<lparr>ed_textEditor = te, ed_connection = c\<rparr>)"
  by (simp add: getConnectionByPath_def getConnectionByPath_loop_find observeTextEditor_def
        subscriptions_add_def map_get_map_set Let_def)

theorem getConnectionByPath_first_prefix_witness:
  "getConnectionByPath (Some ''/rootother/x.js'')
     (constructor\<lparr>connections :=
        [(''/else'', \<lparr>cid = 0, getPath = ''/else'', getBaseDir = ''/else''\<rparr>),
         (''/root'', \<lparr>cid = 1, getPath = ''/root'', getBaseDir = ''/root''\<rparr>),
         (''/rootother'', \<lparr>cid = 2, getPath = ''/rootother'', getBaseDir = ''/rootother''\<rparr>)]\<rparr>) =
     Inr (Some \<lparr>cid = 1, getPath = ''/root'', getBaseDir = ''/root''\<rparr>) \<and>
   map_get \<lparr>te_id = 3, te_path = Some ''/rootother/x.js''\<rparr>
     (editors (observeTextEditor \<lparr>te_id = 3, te_path = Some ''/rootother/x.js''\<rparr>
        (constructor\<lparr>connections :=
           [(''/else'', \<lparr>cid = 0, getPath = ''/else'', getBaseDir = ''/else''\<rparr>),
            (''/root'', \<lparr>cid = 1, getPath = ''/root'', getBaseDir = ''/root''\<rparr>),
            (''/rootother'',
             \<lparr>cid = 2, getPath = ''/rootother'', getBaseDir = ''/rootother''\<rparr>)]\<rparr>))) =
     Some \<lparr>ed_textEditor = \<lparr>te_id = 3, te_path = Some ''/rootother/x.js''\<rparr>,
           ed_connection = \<lparr>cid = 1, getPath = ''/root'', getBaseDir = ''/root''\<rparr>\<rparr>"
  using getConnectionByPath_first_prefix [of "''/rootother/x.js''"
    "constructor\<lparr>connections :=
        [(''/else'', \<lparr>cid = 0, getPath = ''/else'', getBaseDir = ''/else''\<rparr>),
         (''/root'', \<lparr>cid = 1, getPath = ''/root'', getBaseDir = ''/root''\<rparr>),
         (''/rootother'', \<lparr>cid = 2, getPath = ''/rootother'', getBaseDir = ''/rootother''\<rparr>)]\<rparr>"
    "\<lparr>te_id = 3, te_path = Some ''/rootother/x.js''\<rparr>"
    "\<lparr>cid = 1, getPath = ''/root'', getBaseDir = ''/root''\<rparr>"]
  by (simp add: map_values_def)

section \<open>The field config\<close>

lemma config_log: "config (log es s) = config s"
  by (simp add: log_def)

lemma config_add_new: "config (add_new b ps s) = config s"
  by (induction ps arbitrary: s) (simp_all add: emit_did_add_project_def log_def)

lemma config_remove_deleted: "config (remove_deleted ps ks s) = config s"
  by (induction ks arbitrary: s)
     (simp_all add: Connection_destroy_def connection_onDidDestroy_def log_def Let_def
        split: option.splits)

lemma config_install_observers: "config (install_observers s) = config s"
  by (simp add: install_observers_def subscriptions_add_def split: list.splits)

lemma config_handlePaths: "config (handlePaths ps s) = config s"
  by (simp add: handlePaths_def Let_def config_remove_deleted config_add_new config_log)

lemma config_creation: "config (snd (creation E p s)) = config s"
  by (simp add: creation_def handleConnection_def log_def Let_def split: sum.splits)

lemma config_record_result: "config (record_result b r s) = config s"
  by (simp add: record_result_def log_def Let_def split: settled.splits)

lemma config_settle: "config (settle E i s) = config s"
  by (simp add: settle_def Let_def config_install_observers config_record_result config_log
        config_creation)

lemma config_step: "config (step E e s) = config s"
proof (cases e)
  case (DidChangePaths ps)
  then show ?thesis by (simp add: config_handlePaths)
next
  case (Settle i)
  then show ?thesis by (simp add: config_settle)
next
  case (ObserveTextEditor te)
  then show ?thesis
    by (simp add: observeTextEditor_def subscriptions_add_def log_def Let_def
          split: sum.splits option.splits)
next
  case (DestroyEditor te)
  then show ?thesis
    by (simp add: editor_onDidDestroy_def subscriptions_remove_def Let_def split: option.splits)
next
  case (Message i m)
  then show ?thesis
    by (cases m)
       (simp_all add: Connection_dispatch_def on_compile_error_def on_file_meta_def
          on_compile_success_def log_def split: option.splits)
qed

lemma config_activate: "config (activate ps constructor) = None"
  by (simp add: activate_def config_install_observers config_handlePaths subscriptions_add_def
        constructor_def)

lemma config_run: "config (run E ps evs) = None"
  unfolding run_def
  by (induction evs rule: rev_induct) (simp_all add: config_activate config_step)

text \<open>
  C10. No method assigns \<open>this.config\<close>: it is undefined in every state the package can
  reach, so \<open>dispose\<close> throws a TypeError at its first statement, before the editors
  map is cleared and before the subscriptions are disposed.
\<close>

theorem dispose_throws:
  "config (run E ps evs) = None \<and> dispose (run E ps evs) = Inl TypeError"
  by (simp add: dispose_def config_run)

theorem dispose_throws_witness:
  "config (run example_env [''/root''] [Settle 0]) = None \<and>
   dispose (run example_env [''/root''] [Settle 0]) = Inl TypeError"
  by (rule dispose_throws [of example_env "[''/root'']" "[Settle 0]"])

section \<open>Failures while creating a connection\<close>

text \<open>
  C7. A failure while a connection is created for a project path stays inside the
  creation: without the marker file the promise is fulfilled and the state is as
  before; when the transport cannot be established the failure is logged, the promise
  is fulfilled and nothing is registered; a rejection of \<open>realPath\<close> rejects the
  creation promise and leaves the state as it is. The promise that \<open>handlePaths\<close>
  returns is never rejected, and it is fulfilled as soon as one creation promise is
  rejected or all are fulfilled.
\<close>

theorem creation_failure_contained:
  "(realPath E p = Inr rp \<longrightarrow> \<not> fileExists E (marker_file E rp) \<longrightarrow>
      creation E p s = (Fulfilled (), s)) \<and>
   (realPath E p = Inr rp \<longrightarrow> fileExists E (marker_file E rp) \<longrightarrow>
    transport E rp (marker_file E rp) = Inl e \<longrightarrow>
      creation E p s = (Fulfilled (), log [ConsoleError ''Flint channel creation failed'' e] s)) \<and>
   (realPath E p = Inl e \<longrightarrow> creation E p s = (Rejected e, s)) \<and>
   handlePaths_promise b \<noteq> Some (Rejected e') \<and>
   (first_rejection (results b) \<noteq> None \<or> length (results b) = spawned b \<longrightarrow>
      handlePaths_promise b = Some (Fulfilled ()))"
  by (auto simp: creation_def Connection_create_def handlePaths_promise_def promise_catch_def
        Promise_all_def split: option.splits settled.splits)

theorem creation_failure_contained_witness:
  "creation example_env ''/plain'' constructor = (Fulfilled (), constructor) \<and>
   creation example_env ''/broken'' constructor =
     (Fulfilled (),
      log [ConsoleError ''Flint channel creation failed'' (HostError ''ECONNREFUSED'')] constructor) \<and>
   creation example_env ''/gone'' constructor = (Rejected (HostError ''ENOENT''), constructor) \<and>
   handlePaths_promise \<lparr>spawned = 2, results = [Rejected (HostError ''ENOENT'')]\<rparr> =
     Some (Fulfilled ())"
  using creation_failure_contained [of example_env "''/plain''" "''/plain''" constructor
          "HostError ''ENOENT''" "\<lparr>spawned = 2, results = [Rejected (HostError ''ENOENT'')]\<rparr>"]
        creation_failure_contained [of example_env "''/broken''" "''/broken''" constructor
          "HostError ''ECONNREFUSED''" "\<lparr>spawned = 2, results = [Rejected (HostError ''ENOENT'')]\<rparr>"]
        creation_failure_contained [of example_env "''/gone''" "''/gone''" constructor
          "HostError ''ENOENT''" "\<lparr>spawned = 2, results = [Rejected (HostError ''ENOENT'')]\<rparr>"]
  by (simp add: example_env_def marker_file_def slash_join_def)

section \<open>Binding documents to connections\<close>

lemma getConnectionByPath_undefined: "getConnectionByPath None s = Inr x \<Longrightarrow> x = None"
  by (cases "connections s") (simp_all add: getConnectionByPath_def map_values_def)

text \<open>
  C8, as the specification states it, fails when two project roots are nested. After
  connections for \<open>/root/src\<close> and \<open>/root\<close> have been created, in this order, a
  connection rooted at \<open>/root\<close> is registered, yet the document \<open>/root/src/x.js\<close> is
  bound to the connection rooted at \<open>/root/src\<close>.
\<close>

theorem document_binding_nested_roots:
  "map_get ''/root''
     (connections (run example_env [''/root/src'', ''/root''] [Settle 0, Settle 0])) =
     Some \<lparr>cid = 1, getPath = ''/root'', getBaseDir = ''/root''\<rparr> \<and>
   map_get \<lparr>te_id = 7, te_path = Some ''/root/src/x.js''\<rparr>
     (editors (run example_env [''/root/src'', ''/root'']
        [Settle 0, Settle 0,
         ObserveTextEditor \<lparr>te_id = 7, te_path = Some ''/root/src/x.js''\<rparr>])) =
     Some \<lparr>ed_textEditor = \<lparr>te_id = 7, te_path = Some ''/root/src/x.js''\<rparr>,
           ed_connection = \<lparr>cid = 0, getPath = ''/root/src'', getBaseDir = ''/root/src''\<rparr>\<rparr>"
  by code_simp

text \<open>
  C8, amended. When a document with path \<open>p\<close> is handed to the observer, a wrapper is
  made exactly if some registered connection's root is a prefix of \<open>p\<close>, and the
  document is then bound to the first such connection in the insertion order of the
  map, and to that one only (the editors map holds one wrapper per document); with no
  such connection the state is as before. A document without a path gets no wrapper.
  Once the wrapper of a document is destroyed, the editors map has no entry for the
  document.
\<close>

theorem document_binding:
  "(te_path te = Some p \<longrightarrow>
      (case find (\<lambda>c. prefix (getPath c) p) (map_values (connections s)) of
         None \<Rightarrow> observeTextEditor te s = s
       | Some c \<Rightarrow>
           map_get te (editors (observeTextEditor te s)) =
             Some \<lparr>ed_textEditor = te, ed_connection = c\<rparr>)) \<and>
   (te_path te = None \<longrightarrow> editors (observeTextEditor te s) = editors s) \<and>
   map_get te (editors (step E (DestroyEditor te) s)) = None"
proof (intro conjI impI)
  assume "te_path te = Some p"
  then show "case find (\<lambda>c. prefix (getPath c) p) (map_values (connections s)) of
         None \<Rightarrow> observeTextEditor te s = s
       | Some c \<Rightarrow>
           map_get te (editors (observeTextEditor te s)) =
             Some \<lparr>ed_textEditor = te, ed_connection = c\<rparr>"
    by (simp add: observeTextEditor_def getConnectionByPath_def getConnectionByPath_loop_find
          subscriptions_add_def map_get_map_set Let_def split: option.splits)
next
  assume "te_path te = None"
  then show "editors (observeTextEditor te s) = editors s"
    by (auto simp: observeTextEditor_def log_def split: sum.splits option.splits
          dest: getConnectionByPath_undefined)
next
  show "map_get te (editors (step E (DestroyEditor te) s)) = None"
    by (simp add: editor_onDidDestroy_def subscriptions_remove_def map_get_map_delete Let_def
          split: option.splits)
qed

text \<open>
  The instance of the specification: with the connection rooted at \<open>/root\<close> as the only
  one whose root is a prefix, \<open>/root/src/x.js\<close> is bound to it, and closing the
  document removes the binding.
\<close>

theorem document_binding_witness:
  "map_get \<lparr>te_id = 7, te_path = Some ''/root/src/x.js''\<rparr>
     (editors (observeTextEditor \<lparr>te_id = 7, te_path = Some ''/root/src/x.js''\<rparr>
        (run example_env [''/real'', ''/root''] [Settle 0, Settle 0]))) =
     Some \<lparr>ed_textEditor = \<lparr>te_id = 7, te_path = Some ''/root/src/x.js''\<rparr>,
           ed_connection = \<lparr>cid = 1, getPath = ''/root'', getBaseDir = ''/root''\<rparr>\<rparr> \<and>
   map_get \<lparr>te_id = 7, te_path = Some ''/root/src/x.js''\<rparr>
     (editors (step example_env (DestroyEditor \<lparr>te_id = 7, te_path = Some ''/root/src/x.js''\<rparr>)
        (observeTextEditor \<lparr>te_id = 7, te_path = Some ''/root/src/x.js''\<rparr>
           (run example_env [''/real'', ''/root''] [Settle 0, Settle 0])))) = None"
proof -
  have c: "map_values (connections (run example_env [''/real'', ''/root''] [Settle 0, Settle 0])) =
      [\<lparr>cid = 0, getPath = ''/real'', getBaseDir = ''/real''\<rparr>,
       \<lparr>cid = 1, getPath = ''/root'', getBaseDir = ''/root''\<rparr>]"
    by code_simp
  show ?thesis
    using document_binding [of "\<lparr>te_id = 7, te_path = Some ''/root/src/x.js''\<rparr>"
        "''/root/src/x.js''" "run example_env [''/real'', ''/root''] [Settle 0, Settle 0]"]
      document_binding [of "\<lparr>te_id = 7, te_path = Some ''/root/src/x.js''\<rparr>"
        "''/root/src/x.js''"
        "observeTextEditor \<lparr>te_id = 7, te_path = Some ''/root/src/x.js''\<rparr>
           (run example_env [''/real'', ''/root''] [Settle 0, Settle 0])" example_env]
    by (simp add: c)
qed

section \<open>Overlapping path changes\<close>

text \<open>
  C1 does not hold of the code. The paths change to \<open>[/root]\<close> and then to \<open>[]\<close> before
  the connection for \<open>/root\<close> is there: the second \<open>handlePaths\<close> runs while the
  creation promise of the first is in flight, finds nothing to remove, and the
  connection for \<open>/root\<close> is registered afterwards, for a project that is gone.
\<close>

theorem handlePaths_calls_overlap:
  "pending (run example_env [] [DidChangePaths [''/root'']]) = [(1, ''/root'')] \<and>
   effects (run example_env [] [DidChangePaths [''/root''], DidChangePaths [], Settle 0]) =
     [HandlePaths 0 [], HandlePaths 1 [''/root''], DidAddProject 1 ''/root'', HandlePaths 2 [],
      ConnectionsSet ''/root'' 0, RegisterConnection 0, CreationSettled 1 ''/root''] \<and>
   map_keys (connections
     (run example_env [] [DidChangePaths [''/root''], DidChangePaths [], Settle 0])) = [''/root'']"
  by code_simp

section \<open>Destroying a connection\<close>


















subsection \<open>Where calls of setError come from\<close>














section \<open>The keys of the connections map\<close>

text \<open>
  C2, as the specification states it, fails when the transport cannot be established:
  \<open>/broken\<close> resolves to itself and holds the marker file, and after its creation
  promise has settled the connections map has no key.
\<close>

theorem connections_keys_transport_failure:
  "realPath example_env ''/broken'' = Inr ''/broken'' \<and>
   fileExists example_env (marker_file example_env ''/broken'') \<and>
   pending (run example_env [''/broken''] [Settle 0]) = [] \<and>
   map_keys (connections (run example_env [''/broken''] [Settle 0])) = []"
  by code_simp

lemma keys_map_set: "set (map_keys (map_set k v m)) = insert k (set (map_keys m))"
  by (induction m) (auto simp: map_keys_def)

lemma keys_map_delete: "set (map_keys (map_delete k m)) = set (map_keys m) - {k}"
  by (auto simp: map_keys_def map_delete_def)

lemma map_get_None_keys: "map_get k m = None \<longleftrightarrow> k \<notin> set (map_keys m)"
  by (simp add: map_get_def map_keys_def map_of_eq_None_iff)

lemma map_has_keys: "map_has k m \<longleftrightarrow> k \<in> set (map_keys m)"
  by (simp add: map_has_def map_keys_def map_of_eq_None_iff)

lemma add_new_connections: "connections (add_new b ps s) = connections s"
  by (induction ps arbitrary: s) (simp_all add: emit_did_add_project_def log_def)

lemma add_new_pending:
  "pending (add_new b ps s) =
     pending s @ map (Pair b) (filter (\<lambda>p. \<not> map_has p (connections s)) ps)"
proof (induction ps arbitrary: s)
  case Nil
  then show ?case by simp
next
  case (Cons p ps)
  show ?case
    by (simp add: Cons.IH) (simp add: emit_did_add_project_def log_def)
qed

lemma remove_deleted_pending: "pending (remove_deleted ps ks s) = pending s"
  by (induction ks arbitrary: s)
     (simp_all add: Connection_destroy_def connection_onDidDestroy_def log_def Let_def
        split: option.splits)

lemma remove_deleted_keys:
  "set (map_keys (connections (remove_deleted ps ks s))) =
     set (map_keys (connections s)) - {k \<in> set ks. k \<notin> set ps}"
proof (induction ks arbitrary: s)
  case Nil
  then show ?case by simp
next
  case (Cons k ks)
  show ?case
  proof (cases "k \<in> set ps")
    case True
    then have "array_indexOf ps k \<noteq> - 1" by (simp add: array_indexOf_absent)
    with True show ?thesis by (auto simp: Cons.IH)
  next
    case False
    then have a: "array_indexOf ps k = - 1" by (simp add: array_indexOf_absent)
    show ?thesis
    proof (cases "map_get k (connections s)")
      case None
      then have "k \<notin> set (map_keys (connections s))" by (simp add: map_get_None_keys)
      with a None False show ?thesis by (auto simp: Cons.IH log_def)
    next
      case (Some c)
      with a False show ?thesis
        by (auto simp: Cons.IH log_def Let_def Connection_destroy_def connection_onDidDestroy_def
              keys_map_delete)
    qed
  qed
qed

lemma handlePaths_keys:
  "set (map_keys (connections (handlePaths ps s))) = set (map_keys (connections s)) \<inter> set ps"
  by (auto simp: handlePaths_def Let_def remove_deleted_keys add_new_connections log_def)

lemma handlePaths_pending:
  "pending (handlePaths ps s) =
     pending s @ map (Pair (length (batches s)))
                   (filter (\<lambda>p. p \<notin> set (map_keys (connections s))) ps)"
  by (simp add: handlePaths_def Let_def remove_deleted_pending add_new_pending log_def map_has_keys)

lemma creation_pending: "pending (snd (creation E p s)) = pending s"
  by (simp add: creation_def handleConnection_def log_def Let_def split: sum.splits)

lemma creation_keys:
  "set (map_keys (connections (snd (creation E p s)))) =
     set (map_keys (connections s)) \<union> set_option (established E p)"
  by (simp add: creation_def established_def Connection_create_def handleConnection_def log_def
        Let_def keys_map_set split: sum.splits)

lemma install_observers_connections: "connections (install_observers s) = connections s"
  by (simp add: install_observers_def subscriptions_add_def split: list.splits)

lemma install_observers_pending: "pending (install_observers s) = pending s"
  by (simp add: install_observers_def subscriptions_add_def split: list.splits)

lemma record_result_connections: "connections (record_result b r s) = connections s"
  by (simp add: record_result_def log_def Let_def split: settled.splits)

lemma record_result_pending: "pending (record_result b r s) = pending s"
  by (simp add: record_result_def log_def Let_def split: settled.splits)

lemma settle_keys:
  "i < length (pending s) \<Longrightarrow>
   set (map_keys (connections (settle E i s))) =
     set (map_keys (connections s)) \<union> set_option (established E (snd (pending s ! i)))"
  by (simp add: settle_def Let_def install_observers_connections record_result_connections
        log_def creation_keys)

lemma settle_pending:
  "i < length (pending s) \<Longrightarrow>
   pending (settle E i s) = take i (pending s) @ drop (Suc i) (pending s)"
  by (simp add: settle_def Let_def install_observers_pending record_result_pending
        log_def creation_pending)

lemma set_without_nth:
  "i < length xs \<Longrightarrow> set xs = insert (xs ! i) (set (take i xs @ drop (Suc i) xs))"
proof -
  assume "i < length xs"
  then have "xs = take i xs @ xs ! i # drop (Suc i) xs" by (rule id_take_nth_drop)
  then have "set xs = set (take i xs @ xs ! i # drop (Suc i) xs)" by simp
  then show ?thesis by simp
qed

lemma established_idem:
  assumes "\<forall>p rp. realPath E p = Inr rp \<longrightarrow> realPath E rp = Inr rp"
    and "established E p = Some rp"
  shows "established E rp = Some rp"
proof -
  from assms(2) have r: "realPath E p = Inr rp"
    by (auto simp: established_def split: sum.splits if_splits)
  with assms(1) have "realPath E rp = Inr rp" by blast
  with assms(2) r show ?thesis
    by (auto simp: established_def split: sum.splits if_splits)
qed

lemma keys_inv_done:
  "keys_inv E P s \<Longrightarrow> pending s = [] \<Longrightarrow>
   set (map_keys (connections s)) = established_roots E P"
  unfolding keys_inv_def by auto

lemma keys_inv_handlePaths:
  assumes idem: "\<forall>p rp. realPath E p = Inr rp \<longrightarrow> realPath E rp = Inr rp"
    and inv: "keys_inv E P s" and quiet: "pending s = []"
  shows "keys_inv E ps (handlePaths ps s)"
proof -
  have K: "set (map_keys (connections s)) = established_roots E P"
    using inv quiet by (rule keys_inv_done)
  have fixed: "established E k = Some k" if "k \<in> set (map_keys (connections s))" for k
    using that K idem by (auto simp: established_roots_def intro: established_idem)
  have 1: "set (map_keys (connections (handlePaths ps s))) \<subseteq> established_roots E ps"
    using fixed by (auto simp: handlePaths_keys established_roots_def)
  have 3: "snd ` set (pending (handlePaths ps s)) \<subseteq> set ps"
    using quiet by (auto simp: handlePaths_pending)
  have 2: "t \<in> set (map_keys (connections (handlePaths ps s))) \<or>
        (\<exists>q \<in> snd ` set (pending (handlePaths ps s)). established E q = Some t)"
    if "t \<in> established_roots E ps" for t
  proof -
    from that obtain p where p: "p \<in> set ps" "established E p = Some t"
      by (auto simp: established_roots_def)
    show ?thesis
    proof (cases "p \<in> set (map_keys (connections s))")
      case True
      with fixed p have "t = p" by fastforce
      with True p show ?thesis by (simp add: handlePaths_keys)
    next
      case False
      with p have "p \<in> snd ` set (pending (handlePaths ps s))"
        by (force simp: handlePaths_pending)
      with p show ?thesis by blast
    qed
  qed
  from 1 2 3 show ?thesis unfolding keys_inv_def by blast
qed

lemma keys_inv_settle:
  assumes inv: "keys_inv E P s"
  shows "keys_inv E P (settle E i s)"
proof (cases "i < length (pending s)")
  case False
  with inv show ?thesis by (simp add: settle_def)
next
  case True
  let ?q = "snd (pending s ! i)"
  from True have mem: "pending s ! i \<in> set (pending s)" by simp
  have parts: "set (pending s) = insert (pending s ! i) (set (pending (settle E i s)))"
    using set_without_nth [OF True] by (simp only: settle_pending [OF True])
  have qP: "?q \<in> set P" using inv mem unfolding keys_inv_def by auto
  have 1: "set (map_keys (connections (settle E i s))) \<subseteq> established_roots E P"
    using inv qP True unfolding keys_inv_def
    by (auto simp: settle_keys established_roots_def)
  have 3: "snd ` set (pending (settle E i s)) \<subseteq> set P"
    using inv parts unfolding keys_inv_def by auto
  have 2: "t \<in> set (map_keys (connections (settle E i s))) \<or>
        (\<exists>q \<in> snd ` set (pending (settle E i s)). established E q = Some t)"
    if "t \<in> established_roots E P" for t
  proof -
    from inv that have "t \<in> set (map_keys (connections s)) \<or>
        (\<exists>q \<in> snd ` set (pending s). established E q = Some t)"
      unfolding keys_inv_def by blast
    then show ?thesis
    proof
      assume "t \<in> set (map_keys (connections s))"
      with True show ?thesis by (simp add: settle_keys)
    next
      assume "\<exists>q \<in> snd ` set (pending s). established E q = Some t"
      then obtain x where x: "x \<in> set (pending s)" "established E (snd x) = Some t" by auto
      show ?thesis
      proof (cases "x = pending s ! i")
        case True
        with x \<open>i < length (pending s)\<close> show ?thesis by (simp add: settle_keys)
      next
        case False
        with x parts have "x \<in> set (pending (settle E i s))" by auto
        with x show ?thesis by blast
      qed
    qed
  qed
  from 1 2 3 show ?thesis unfolding keys_inv_def by blast
qed


lemma keys_inv_frame:
  "keys_inv E P s \<Longrightarrow> connections s' = connections s \<Longrightarrow> pending s' = pending s \<Longrightarrow>
   keys_inv E P s'"
  by (simp add: keys_inv_def)

lemma observeTextEditor_frame:
  "connections (observeTextEditor te s) = connections s \<and>
   pending (observeTextEditor te s) = pending s"
  by (simp add: observeTextEditor_def subscriptions_add_def log_def Let_def
        split: sum.splits option.splits)

lemma editor_onDidDestroy_frame:
  "connections (editor_onDidDestroy te ed s) = connections s \<and>
   pending (editor_onDidDestroy te ed s) = pending s"
  by (simp add: editor_onDidDestroy_def subscriptions_remove_def Let_def)

lemma Connection_dispatch_frame:
  "connections (Connection_dispatch E i m s) = connections s \<and>
   pending (Connection_dispatch E i m s) = pending s"
  by (cases m)
     (simp_all add: Connection_dispatch_def on_compile_error_def on_file_meta_def
        on_compile_success_def log_def split: option.splits)

lemma keys_inv_step:
  assumes "keys_inv E P s" and "\<forall>ps. e \<noteq> DidChangePaths ps"
  shows "keys_inv E P (step E e s)"
proof (cases e)
  case (DidChangePaths ps)
  with assms(2) show ?thesis by blast
next
  case (Settle i)
  with assms(1) show ?thesis by (simp add: keys_inv_settle)
next
  case (ObserveTextEditor te)
  with assms(1) show ?thesis
    by (auto intro: keys_inv_frame simp: observeTextEditor_frame)
next
  case (DestroyEditor te)
  with assms(1) show ?thesis
    by (auto intro: keys_inv_frame simp: editor_onDidDestroy_frame split: option.splits)
next
  case (Message i m)
  with assms(1) show ?thesis
    by (auto intro: keys_inv_frame simp: Connection_dispatch_frame)
qed

lemma keys_inv_activate:
  assumes "\<forall>p rp. realPath E p = Inr rp \<longrightarrow> realPath E rp = Inr rp"
  shows "keys_inv E ps (activate ps constructor)"
proof -
  have "keys_inv E [] (subscriptions_add DPathsListener constructor)"
    by (simp add: keys_inv_def subscriptions_add_def constructor_def map_keys_def
          established_roots_def)
  moreover have "pending (subscriptions_add DPathsListener constructor) = []"
    by (simp add: subscriptions_add_def constructor_def)
  ultimately have "keys_inv E ps (handlePaths ps (subscriptions_add DPathsListener constructor))"
    using assms by (intro keys_inv_handlePaths)
  then show ?thesis
    unfolding activate_def
    by (rule keys_inv_frame) (simp_all add: install_observers_connections install_observers_pending)
qed

lemma keys_converge_from:
  assumes idem: "\<forall>p rp. realPath E p = Inr rp \<longrightarrow> realPath E rp = Inr rp"
  shows "keys_inv E P s \<Longrightarrow> calls_settled E s evs \<Longrightarrow>
         pending (foldl (\<lambda>s e. step E e s) s evs) = [] \<Longrightarrow>
         set (map_keys (connections (foldl (\<lambda>s e. step E e s) s evs))) =
           established_roots E (last_paths P evs)"
proof (induction evs arbitrary: s P)
  case Nil
  then show ?case by (simp add: keys_inv_done)
next
  case (Cons e evs)
  show ?case
  proof (cases "\<exists>ps. e = DidChangePaths ps")
    case True
    then obtain ps where e: "e = DidChangePaths ps" by blast
    from Cons.prems(2) e have quiet: "pending s = []"
      and rest: "calls_settled E (handlePaths ps s) evs" by simp_all
    have "keys_inv E ps (handlePaths ps s)"
      using idem Cons.prems(1) quiet by (rule keys_inv_handlePaths)
    from Cons.IH [OF this rest] Cons.prems(3) e show ?thesis by simp
  next
    case False
    then have ne: "\<forall>ps. e \<noteq> DidChangePaths ps" by blast
    have inv: "keys_inv E P (step E e s)" using Cons.prems(1) ne by (rule keys_inv_step)
    from ne Cons.prems(2) have rest: "calls_settled E (step E e s) evs" by (cases e) auto
    from ne have lp: "last_paths P (e # evs) = last_paths P evs" by (cases e) auto
    from Cons.IH [OF inv rest] Cons.prems(3) lp show ?thesis by simp
  qed
qed

text \<open>
  C2, amended. Take a file system that stays as it is and whose \<open>realPath\<close> returns
  paths that resolve to themselves, and a run in which every call of \<open>handlePaths\<close>
  finds no creation promise in flight. Once no creation promise is in flight, the keys
  of the connections map are exactly the resolved paths of those paths of the most
  recent call that hold the marker file and for which the transport was established.
\<close>

theorem connections_keys_converge:
  assumes "\<forall>p rp. realPath E p = Inr rp \<longrightarrow> realPath E rp = Inr rp"
    and "calls_settled E (activate paths constructor) evs"
    and "pending (run E paths evs) = []"
  shows "set (map_keys (connections (run E paths evs))) =
           established_roots E (last_paths paths evs)"
  using keys_converge_from [OF assms(1) keys_inv_activate [OF assms(1)] assms(2)] assms(3)
  by (simp add: run_def)

lemma example_env_idem:
  "\<forall>p rp. realPath example_env p = Inr rp \<longrightarrow> realPath example_env rp = Inr rp"
  by (simp add: example_env_def)

theorem connections_keys_converge_witness:
  "calls_settled example_env (activate [''/root'', ''/plain''] constructor)
     [Settle 1, Settle 0, DidChangePaths [''/link'', ''/broken'', ''/gone''],
      Settle 0, Settle 1, Settle 0] \<and>
   pending (run example_env [''/root'', ''/plain'']
     [Settle 1, Settle 0, DidChangePaths [''/link'', ''/broken'', ''/gone''],
      Settle 0, Settle 1, Settle 0]) = [] \<and>
   set (map_keys (connections (run example_env [''/root'', ''/plain'']
     [Settle 1, Settle 0, DidChangePaths [''/link'', ''/broken'', ''/gone''],
      Settle 0, Settle 1, Settle 0]))) =
     established_roots example_env
       (last_paths [''/root'', ''/plain'']
          [Settle 1, Settle 0, DidChangePaths [''/link'', ''/broken'', ''/gone''],
           Settle 0, Settle 1, Settle 0]) \<and>
   map_keys (connections (run example_env [''/root'', ''/plain'']
     [Settle 1, Settle 0, DidChangePaths [''/link'', ''/broken'', ''/gone''],
      Settle 0, Settle 1, Settle 0])) = [''/real'']"
proof -
  have i: "\<forall>p rp. realPath example_env p = Inr rp \<longrightarrow> realPath example_env rp = Inr rp"
    by (rule example_env_idem)
  have c: "calls_settled example_env (activate [''/root'', ''/plain''] constructor)
     [Settle 1, Settle 0, DidChangePaths [''/link'', ''/broken'', ''/gone''],
      Settle 0, Settle 1, Settle 0]"
    by code_simp
  have p: "pending (run example_env [''/root'', ''/plain'']
     [Settle 1, Settle 0, DidChangePaths [''/link'', ''/broken'', ''/gone''],
      Settle 0, Settle 1, Settle 0]) = []"
    by code_simp
  have k: "map_keys (connections (run example_env [''/root'', ''/plain'']
     [Settle 1, Settle 0, DidChangePaths [''/link'', ''/broken'', ''/gone''],
      Settle 0, Settle 1, Settle 0])) = [''/real'']"
    by code_simp
  from connections_keys_converge [OF i c p] c p k show ?thesis by blast
qed

section \<open>Connections per project path\<close>

lemma distinct_map_set: "distinct (map_keys m) \<Longrightarrow> distinct (map_keys (map_set k v m))"
proof (induction m)
  case Nil
  then show ?case by (simp add: map_keys_def)
next
  case (Cons e m)
  then have "distinct (map_keys (map_set k v m))" by (simp add: map_keys_def)
  moreover have "set (map_keys (map_set k v m)) = insert k (set (map_keys m))"
    by (rule keys_map_set)
  ultimately show ?case using Cons.prems by (auto simp: map_keys_def)
qed

lemma distinct_map_delete: "distinct (map_keys m) \<Longrightarrow> distinct (map_keys (map_delete k m))"
  by (simp add: map_keys_def map_delete_def distinct_map_filter)

lemma distinct_remove_deleted:
  "distinct (map_keys (connections s)) \<Longrightarrow>
   distinct (map_keys (connections (remove_deleted ps ks s)))"
proof (induction ks arbitrary: s)
  case Nil
  then show ?case by simp
next
  case (Cons k ks)
  have "distinct (map_keys (connections
     (if array_indexOf ps k = - 1 then
          (case map_get k (connections s) of
             None \<Rightarrow> log [Uncaught TypeError] s
           | Some oldConnection \<Rightarrow>
               (let s1 = Connection_destroy oldConnection s
                in log [ConnectionsDelete k (cid oldConnection)]
                     (s1\<lparr>connections := map_delete k (connections s1)\<rparr>)))
        else s)))"
    using Cons.prems
    by (simp add: log_def Let_def Connection_destroy_def connection_onDidDestroy_def
          distinct_map_delete split: option.splits)
  then show ?case by (simp add: Cons.IH del: split_paired_All)
qed

text \<open>
  Run over the keys of the map, the second loop of \<open>handlePaths\<close> never finds
  \<open>get\<close> undefined.
\<close>

lemma remove_deleted_get_defined:
  "distinct ks \<Longrightarrow> set ks \<subseteq> set (map_keys (connections s)) \<Longrightarrow>
   Uncaught TypeError \<notin> set (effects s) \<Longrightarrow>
   Uncaught TypeError \<notin> set (effects (remove_deleted ps ks s))"
proof (induction ks arbitrary: s)
  case Nil
  then show ?case by simp
next
  case (Cons k ks)
  from Cons.prems obtain c where c: "map_get k (connections s) = Some c"
    by (cases "map_get k (connections s)") (auto simp: map_get_None_keys)
  show ?case
  proof (cases "array_indexOf ps k = - 1")
    case False
    with Cons show ?thesis by simp
  next
    case True
    let ?s = "let s1 = Connection_destroy c s
              in log [ConnectionsDelete k (cid c)]
                   (s1\<lparr>connections := map_delete k (connections s1)\<rparr>)"
    have k: "set (map_keys (connections ?s)) = set (map_keys (connections s)) - {k}"
      by (simp add: Let_def log_def Connection_destroy_def connection_onDidDestroy_def
            keys_map_delete)
    have e: "Uncaught TypeError \<notin> set (effects ?s)"
      using Cons.prems(3)
      by (simp add: Let_def log_def Connection_destroy_def connection_onDidDestroy_def)
    from Cons.prems k have "set ks \<subseteq> set (map_keys (connections ?s))" by auto
    with Cons.prems e have "Uncaught TypeError \<notin> set (effects (remove_deleted ps ks ?s))"
      by (intro Cons.IH) simp_all
    with True c show ?thesis by simp
  qed
qed

lemma distinct_handlePaths:
  "distinct (map_keys (connections s)) \<Longrightarrow> distinct (map_keys (connections (handlePaths ps s)))"
  by (simp add: handlePaths_def Let_def distinct_remove_deleted add_new_connections log_def)

lemma distinct_settle:
  "distinct (map_keys (connections s)) \<Longrightarrow> distinct (map_keys (connections (settle E i s)))"
  by (simp add: settle_def Let_def install_observers_connections record_result_connections
        log_def creation_def handleConnection_def distinct_map_set split: sum.splits)

lemma distinct_step:
  "distinct (map_keys (connections s)) \<Longrightarrow> distinct (map_keys (connections (step E e s)))"
  by (cases e)
     (simp_all add: distinct_handlePaths distinct_settle observeTextEditor_frame
        editor_onDidDestroy_frame Connection_dispatch_frame split: option.splits)

text \<open>
  The map itself never holds two entries for one key, whatever the run.
\<close>

lemma connections_keys_distinct: "distinct (map_keys (connections (run E ps evs)))"
proof -
  have "distinct (map_keys (connections (subscriptions_add DPathsListener constructor)))"
    by (simp add: subscriptions_add_def constructor_def map_keys_def)
  then have "distinct (map_keys (connections (activate ps constructor)))"
    by (simp add: activate_def install_observers_connections distinct_handlePaths)
  then show ?thesis
    unfolding run_def by (induction evs rule: rev_induct) (simp_all add: distinct_step)
qed

text \<open>
  C3 does not hold of the code. \<open>/link\<close> is a symbolic link to \<open>/real\<close> and both are
  project paths. Neither is a key of the map when \<open>handlePaths\<close> runs, so two
  connections are created for \<open>/real\<close>; the second replaces the first in the map, and
  the first is never destroyed and stays registered with the linter.
\<close>

theorem two_live_connections_for_one_root:
  "created (run example_env [''/link'', ''/real''] [Settle 0, Settle 0]) =
     [\<lparr>cid = 0, getPath = ''/real'', getBaseDir = ''/real''\<rparr>,
      \<lparr>cid = 1, getPath = ''/real'', getBaseDir = ''/real''\<rparr>] \<and>
   destroyed (run example_env [''/link'', ''/real''] [Settle 0, Settle 0]) = [] \<and>
   linter_connections (run example_env [''/link'', ''/real''] [Settle 0, Settle 0]) = [0, 1] \<and>
   connections (run example_env [''/link'', ''/real''] [Settle 0, Settle 0]) =
     [(''/real'', \<lparr>cid = 1, getPath = ''/real'', getBaseDir = ''/real''\<rparr>)]"
  by code_simp

end
